theory Spec2Isabelle
  imports Main
begin

section \<open>Go values: errors, panics, results\<close>

text \<open>
  The embedding follows \<^verbatim>\<open>go/tools/gopackagesdriver/archive_to_json.go\<close>.
  A Go \<^verbatim>\<open>string\<close> is a \<^typ>\<open>string\<close>, a Go \<^verbatim>\<open>error\<close> made by
  \<^verbatim>\<open>errors.New\<close> or \<^verbatim>\<open>fmt.Errorf\<close> is its message, and a function that can
  panic returns a \<open>go_result\<close>: either the values it returns or the panic that
  stopped it.
\<close>

datatype go_error = errorString string

datatype panic = IndexOutOfRange int nat

datatype 'a go_result = Returned 'a | Panicked panic

text \<open>The index expression \<^verbatim>\<open>xs[i]\<close>: a run-time panic outside \<open>0 \<le> i < len(xs)\<close>.\<close>

definition go_index :: "'a list \<Rightarrow> int \<Rightarrow> 'a go_result" where
  "go_index xs i =
     (if 0 \<le> i \<and> i < int (length xs) then Returned (xs ! nat i)
      else Panicked (IndexOutOfRange i (length xs)))"

section \<open>The escaped-delimiter splitter\<close>

text \<open>
  \<^verbatim>\<open>splitEscapedString\<close> ranges over the runes of \<^verbatim>\<open>value\<close> and compares each
  with the runes \<^verbatim>\<open>delimiter\<close> and \<^verbatim>\<open>escape\<close>. The model is polymorphic in the
  rune type \<open>'r\<close>: \<open>value\<close> is the sequence of runes the \<^verbatim>\<open>range\<close> yields and a
  field is the sequence of runes written to the \<^verbatim>\<open>strings.Builder\<close>. The three
  loop variables \<^verbatim>\<open>field\<close>, \<^verbatim>\<open>escaped\<close> and \<^verbatim>\<open>values\<close> are passed along;
  the four branches are the four cases of the \<^verbatim>\<open>switch\<close>, in its order.
\<close>

fun splitLoop ::
  "'r \<Rightarrow> 'r \<Rightarrow> 'r list \<Rightarrow> 'r list \<Rightarrow> bool \<Rightarrow> 'r list list \<Rightarrow> 'r list \<times> bool \<times> 'r list list"
where
  "splitLoop delimiter escape [] field escaped vals = (field, escaped, vals)"
| "splitLoop delimiter escape (r # rest) field escaped vals =
     (if escaped then splitLoop delimiter escape rest (field @ [r]) False vals
      else if r = escape then splitLoop delimiter escape rest field True vals
      else if r = delimiter then splitLoop delimiter escape rest [] False (vals @ [field])
      else splitLoop delimiter escape rest (field @ [r]) False vals)"

definition splitEscapedString :: "'r list \<Rightarrow> 'r \<Rightarrow> 'r \<Rightarrow> 'r list list" where
  "splitEscapedString value delimiter escape =
     (case splitLoop delimiter escape value [] False [] of
        (field, escaped, vals) \<Rightarrow> vals @ [field])"

text \<open>The value of \<^verbatim>\<open>escaped\<close> when the loop over \<open>value\<close> ends.\<close>

definition endsEscaped :: "'r list \<Rightarrow> 'r \<Rightarrow> 'r \<Rightarrow> bool" where
  "endsEscaped value delimiter escape =
     (case splitLoop delimiter escape value [] False [] of
        (field, escaped, vals) \<Rightarrow> escaped)"

text \<open>
  The specification speaks of the unescaped occurrences of the delimiter. A
  position is escaped when the position before it holds the escape character and
  is not escaped itself; an unescaped delimiter occurrence is a position that
  holds the delimiter and is not escaped. \<open>spec_unescapedDelimiters\<close> counts them;
  its Boolean argument says whether the first position of the rest is escaped.
\<close>

fun spec_unescapedDelimiters :: "'r \<Rightarrow> 'r \<Rightarrow> bool \<Rightarrow> 'r list \<Rightarrow> nat" where
  "spec_unescapedDelimiters delimiter escape esc [] = 0"
| "spec_unescapedDelimiters delimiter escape esc (r # rest) =
     (if \<not> esc \<and> r = delimiter then 1 else 0)
       + spec_unescapedDelimiters delimiter escape (\<not> esc \<and> r = escape) rest"

section \<open>Token sources\<close>

text \<open>
  The \<^verbatim>\<open>scanner\<close> interface has two implementations: \<^verbatim>\<open>sliceScanner\<close> over the
  argument list, and \<^verbatim>\<open>bufio.Scanner\<close> over the stream of a parameter file.
  \<^verbatim>\<open>Scan\<close> returns its Boolean together with the advanced scanner.
\<close>

record sliceScanner =
  tokens :: "string list"
  lastIndex :: int

definition newSliceScanner :: "string list \<Rightarrow> sliceScanner" where
  "newSliceScanner ts = \<lparr>tokens = ts, lastIndex = - 1\<rparr>"

definition sliceScanner_Scan :: "sliceScanner \<Rightarrow> bool \<times> sliceScanner" where
  "sliceScanner_Scan sc =
     (if lastIndex sc < int (length (tokens sc)) - 1
      then (True, sc\<lparr>lastIndex := lastIndex sc + 1\<rparr>)
      else (False, sc))"

definition sliceScanner_Text :: "sliceScanner \<Rightarrow> string go_result" where
  "sliceScanner_Text sc =
     (if lastIndex sc < 0 then Returned [] else go_index (tokens sc) (lastIndex sc))"

text \<open>
  \<^verbatim>\<open>bufio.Scanner\<close> belongs to the Go library. With its default split function it
  yields the lines of the stream one by one; an \<^verbatim>\<open>io.Reader\<close> is modelled by the
  list of lines a scanner yields from it, and the scanner by the lines still to
  come and the current token.
\<close>

record bufioScanner =
  pending :: "string list"
  current :: string

definition bufio_NewScanner :: "string list \<Rightarrow> bufioScanner" where
  "bufio_NewScanner r = \<lparr>pending = r, current = []\<rparr>"

definition bufioScanner_Scan :: "bufioScanner \<Rightarrow> bool \<times> bufioScanner" where
  "bufioScanner_Scan sc =
     (case pending sc of
        [] \<Rightarrow> (False, sc\<lparr>current := []\<rparr>)
      | l # ls \<Rightarrow> (True, \<lparr>pending = ls, current = l\<rparr>))"

datatype scanner = SliceScanner sliceScanner | BufioScanner bufioScanner

fun Scan :: "scanner \<Rightarrow> bool \<times> scanner" where
  "Scan (SliceScanner sc) = (case sliceScanner_Scan sc of (ok, sc') \<Rightarrow> (ok, SliceScanner sc'))"
| "Scan (BufioScanner sc) = (case bufioScanner_Scan sc of (ok, sc') \<Rightarrow> (ok, BufioScanner sc'))"

fun Text :: "scanner \<Rightarrow> string go_result" where
  "Text (SliceScanner sc) = sliceScanner_Text sc"
| "Text (BufioScanner sc) = Returned (current sc)"

text \<open>The number of tokens a scanner has not delivered yet.\<close>

fun remaining :: "scanner \<Rightarrow> nat" where
  "remaining (SliceScanner sc) = nat (int (length (tokens sc)) - 1 - lastIndex sc)"
| "remaining (BufioScanner sc) = length (pending sc)"

section \<open>The flag-dispatch parser\<close>

text \<open>
  A setter is a closure \<^verbatim>\<open>func(value string)\<close> that mutates variables of its
  host. In the model it is a function on the host's state \<open>'s\<close>. The stream
  provider \<^verbatim>\<open>paramsReaderGetter\<close> acts on the environment \<open>'w\<close> (the file system,
  or the counters of a test double) and returns an error or a reader.
\<close>

record 's arg =
  Setter :: "string \<Rightarrow> 's \<Rightarrow> 's"

record ('s, 'w) bazelArgsParser =
  args :: "string \<rightharpoonup> 's arg"
  paramsReaderGetter :: "string \<Rightarrow> 'w \<Rightarrow> (go_error + string list) \<times> 'w"

definition WithParamsReaderGetter ::
  "(string \<Rightarrow> 'v \<Rightarrow> (go_error + string list) \<times> 'v) \<Rightarrow> ('s, 'w) bazelArgsParser
     \<Rightarrow> ('s, 'v) bazelArgsParser"
where
  "WithParamsReaderGetter getter p = \<lparr>args = args p, paramsReaderGetter = getter\<rparr>"

definition WithArg ::
  "string \<Rightarrow> (string \<Rightarrow> 's \<Rightarrow> 's) \<Rightarrow> ('s, 'w) bazelArgsParser \<Rightarrow> ('s, 'w) bazelArgsParser"
where
  "WithArg flag setter p = p\<lparr>args := (args p)(flag \<mapsto> \<lparr>Setter = setter\<rparr>)\<rparr>"

text \<open>
  The loop of \<^verbatim>\<open>parseBazelArguments\<close>. \<open>currentSetter\<close> is \<open>None\<close> for the nil
  function value. The state of the host is returned with the result, also when
  the loop stops with an error: what the setters did before stays done.
\<close>

function parseLoop ::
  "('s, 'w) bazelArgsParser \<Rightarrow> scanner \<Rightarrow> (string \<Rightarrow> 's \<Rightarrow> 's) option \<Rightarrow> 's
     \<Rightarrow> go_error option go_result \<times> 's"
where
  "parseLoop p sc currentSetter s =
     (if \<not> fst (Scan sc) then (Returned None, s)
      else
        (case Text (snd (Scan sc)) of
           Panicked e \<Rightarrow> (Panicked e, s)
         | Returned token \<Rightarrow>
             (case args p token of
                Some a \<Rightarrow> parseLoop p (snd (Scan sc)) (Some (Setter a)) s
              | None \<Rightarrow>
                  (case currentSetter of
                     None \<Rightarrow> (Returned (Some (errorString (''unexpected flag '' @ token))), s)
                   | Some setter \<Rightarrow> parseLoop p (snd (Scan sc)) currentSetter (setter token s)))))"
  by pat_completeness auto

termination
proof (relation "measure (\<lambda>(p, sc, currentSetter, s). remaining sc)")
  show "wf (measure (\<lambda>(p, sc, currentSetter, s). remaining sc))"
    by simp
next
  fix p :: "('s, 'w) bazelArgsParser" and sc currentSetter and s :: 's and x2 a
  assume "\<not> \<not> fst (Scan sc)"
  then have "remaining (snd (Scan sc)) < remaining sc"
    by (cases sc)
       (auto simp: sliceScanner_Scan_def bufioScanner_Scan_def split: if_splits list.splits)
  then show "((p, snd (Scan sc), Some (Setter a), s), p, sc, currentSetter, s)
               \<in> measure (\<lambda>(p, sc, currentSetter, s). remaining sc)"
    by simp
next
  fix p :: "('s, 'w) bazelArgsParser" and sc currentSetter and s :: 's and x2 x2a
  assume "\<not> \<not> fst (Scan sc)"
  then have "remaining (snd (Scan sc)) < remaining sc"
    by (cases sc)
       (auto simp: sliceScanner_Scan_def bufioScanner_Scan_def split: if_splits list.splits)
  then show "((p, snd (Scan sc), currentSetter, x2a x2 s), p, sc, currentSetter, s)
               \<in> measure (\<lambda>(p, sc, currentSetter, s). remaining sc)"
    by simp
qed

declare parseLoop.simps [simp del]

definition parseBazelArguments ::
  "('s, 'w) bazelArgsParser \<Rightarrow> scanner \<Rightarrow> 's \<Rightarrow> go_error option go_result \<times> 's"
where
  "parseBazelArguments p sc s = parseLoop p sc None s"

text \<open>
  \<^verbatim>\<open>Parse\<close>. The byte access \<^verbatim>\<open>firstArgument[0]\<close> is an index expression and
  panics on the empty string. The environment \<open>w\<close> changes only where the stream
  provider is called.
\<close>

definition Parse ::
  "('s, 'w) bazelArgsParser \<Rightarrow> string list \<Rightarrow> 's \<Rightarrow> 'w \<Rightarrow> go_error option go_result \<times> 's \<times> 'w"
where
  "Parse p arguments s w =
     (case arguments of
        [] \<Rightarrow> (Returned None, s, w)
      | firstArgument # _ \<Rightarrow>
          (case go_index firstArgument 0 of
             Panicked e \<Rightarrow> (Panicked e, s, w)
           | Returned c \<Rightarrow>
               if c \<noteq> CHR ''@'' then
                 (case parseBazelArguments p (SliceScanner (newSliceScanner arguments)) s of
                    (r, s') \<Rightarrow> (r, s', w))
               else if length arguments > 1 then
                 (Returned (Some (errorString ''expected single argument with param file'')), s, w)
               else
                 (case paramsReaderGetter p (drop 1 firstArgument) w of
                    (Inl err, w') \<Rightarrow> (Returned (Some err), s, w')
                  | (Inr paramsReader, w') \<Rightarrow>
                      (case parseBazelArguments p (BufioScanner (bufio_NewScanner paramsReader)) s of
                         (r, s') \<Rightarrow> (r, s', w')))))"

text \<open>
  The default stream provider is \<^verbatim>\<open>os.Open\<close>, from the Go library. Its
  environment is a file system: the lines of every file, and the files that have
  been opened and not closed. Opening a file that exists adds one open file.
\<close>

record world =
  files :: "string \<rightharpoonup> string list"
  openFiles :: "string list"

definition os_Open :: "string \<Rightarrow> world \<Rightarrow> (go_error + string list) \<times> world" where
  "os_Open name w =
     (case files w name of
        None \<Rightarrow> (Inl (errorString (''open '' @ name @ '': no such file or directory'')), w)
      | Some contents \<Rightarrow> (Inr contents, w\<lparr>openFiles := openFiles w @ [name]\<rparr>))"

definition NewBazelArgsParser :: "('s, world) bazelArgsParser" where
  "NewBazelArgsParser = \<lparr>args = Map.empty, paramsReaderGetter = os_Open\<rparr>"

section \<open>The archive and its flags\<close>

text \<open>
  The slices of the archive are lists and \<^verbatim>\<open>append\<close> adds at the end; \<^verbatim>\<open>main\<close>
  starts from nil slices and from a map made by \<^verbatim>\<open>make\<close>, so no two slices share
  an array and \<^verbatim>\<open>Imports\<close> is never the nil map.
\<close>

record archive =
  ID :: string
  PkgPath :: string
  ExportFile :: string
  GoFiles :: "string list"
  CompiledGoFiles :: "string list"
  OtherFiles :: "string list"
  Imports :: "string \<rightharpoonup> string"

definition strings_HasSuffix :: "string \<Rightarrow> string \<Rightarrow> bool" where
  "strings_HasSuffix s suffix =
     (length s \<ge> length suffix \<and> drop (length s - length suffix) s = suffix)"

text \<open>
  \<^verbatim>\<open>parseKeyValueArg\<close> returns its error and the map, which it changes only when
  the value splits into two fields. The delimiter and the escape are ASCII, so on
  well-formed UTF-8 splitting the bytes and splitting the runes agree.
\<close>

definition parseKeyValueArg ::
  "string \<Rightarrow> (string \<rightharpoonup> string) \<Rightarrow> go_error option \<times> (string \<rightharpoonup> string)"
where
  "parseKeyValueArg value m =
     (let fields = splitEscapedString value (CHR ''='') (CHR 0x5C) in
      if length fields \<noteq> 2
      then (Some (errorString (''could not parse key value pair: '' @ value)), m)
      else (None, m(fields ! 0 \<mapsto> fields ! 1)))"

text \<open>
  The closures of \<^verbatim>\<open>parseArchiveAndOutputPath\<close> share the archive behind the
  pointer and the local variable \<^verbatim>\<open>outputPath\<close>.
\<close>

record host =
  archive :: archive
  outputPath :: string

definition set_id :: "string \<Rightarrow> host \<Rightarrow> host" where
  "set_id value h = h\<lparr>archive := (archive h)\<lparr>ID := value\<rparr>\<rparr>"

definition set_pkg_path :: "string \<Rightarrow> host \<Rightarrow> host" where
  "set_pkg_path value h = h\<lparr>archive := (archive h)\<lparr>PkgPath := value\<rparr>\<rparr>"

definition set_export_file :: "string \<Rightarrow> host \<Rightarrow> host" where
  "set_export_file value h = h\<lparr>archive := (archive h)\<lparr>ExportFile := value\<rparr>\<rparr>"

definition set_data_srcs :: "string \<Rightarrow> host \<Rightarrow> host" where
  "set_data_srcs value h =
     (if strings_HasSuffix value ''.go''
      then h\<lparr>archive := (archive h)
               \<lparr>GoFiles := GoFiles (archive h) @ [value],
                CompiledGoFiles := CompiledGoFiles (archive h) @ [value]\<rparr>\<rparr>
      else h\<lparr>archive := (archive h)\<lparr>OtherFiles := OtherFiles (archive h) @ [value]\<rparr>\<rparr>)"

text \<open>The closure of \<^verbatim>\<open>--direct-pkg\<close> calls \<^verbatim>\<open>parseKeyValueArg\<close> and drops its result.\<close>

definition set_direct_pkg :: "string \<Rightarrow> host \<Rightarrow> host" where
  "set_direct_pkg value h =
     (case parseKeyValueArg value (Imports (archive h)) of
        (err, m) \<Rightarrow> h\<lparr>archive := (archive h)\<lparr>Imports := m\<rparr>\<rparr>)"

definition set_output_file :: "string \<Rightarrow> host \<Rightarrow> host" where
  "set_output_file value h = h\<lparr>outputPath := value\<rparr>"

definition archiveParser :: "(host, world) bazelArgsParser" where
  "archiveParser =
     WithArg ''--output-file'' set_output_file
       (WithArg ''--direct-pkg'' set_direct_pkg
         (WithArg ''--data-srcs'' set_data_srcs
           (WithArg ''--export-file'' set_export_file
             (WithArg ''--pkg-path'' set_pkg_path
               (WithArg ''--id'' set_id NewBazelArgsParser)))))"

definition parseArchiveAndOutputPath ::
  "string list \<Rightarrow> archive \<Rightarrow> world \<Rightarrow> (string \<times> go_error option) go_result \<times> archive \<times> world"
where
  "parseArchiveAndOutputPath arguments a w =
     (case Parse archiveParser arguments \<lparr>archive = a, outputPath = []\<rparr> w of
        (Panicked e, h, w') \<Rightarrow> (Panicked e, archive h, w')
      | (Returned (Some err), h, w') \<Rightarrow> (Returned ([], Some err), archive h, w')
      | (Returned None, h, w') \<Rightarrow>
          if outputPath h = []
          then (Returned ([], Some (errorString ''invalid usage: no output path'')), archive h, w')
          else (Returned (outputPath h, None), archive h, w'))"

section \<open>Auxiliary definitions for the proofs\<close>

text \<open>
  The tokens a scanner still delivers, the scanners whose cursor is in range, and
  the loop of \<^verbatim>\<open>parseBazelArguments\<close> as a recursion on the list of tokens.
  They are proof devices: the theorems below show that \<open>parseLoop\<close> on a
  scanner computes \<open>dispatch\<close> on its pending tokens.
\<close>

fun pendingTokens :: "scanner \<Rightarrow> string list" where
  "pendingTokens (SliceScanner sc) = drop (nat (lastIndex sc + 1)) (tokens sc)"
| "pendingTokens (BufioScanner sc) = pending sc"

fun wellFormed :: "scanner \<Rightarrow> bool" where
  "wellFormed (SliceScanner sc) = (- 1 \<le> lastIndex sc)"
| "wellFormed (BufioScanner sc) = True"

fun dispatch ::
  "('s, 'w) bazelArgsParser \<Rightarrow> string list \<Rightarrow> (string \<Rightarrow> 's \<Rightarrow> 's) option \<Rightarrow> 's
     \<Rightarrow> go_error option go_result \<times> 's"
where
  "dispatch p [] currentSetter s = (Returned None, s)"
| "dispatch p (t # ts) currentSetter s =
     (case args p t of
        Some a \<Rightarrow> dispatch p ts (Some (Setter a)) s
      | None \<Rightarrow>
          (case currentSetter of
             None \<Rightarrow> (Returned (Some (errorString (''unexpected flag '' @ t))), s)
           | Some setter \<Rightarrow> dispatch p ts currentSetter (setter t s)))"

text \<open>
  The words of the specification about routing. A flag token is a token with a
  registered callback. \<open>spec_routed\<close> lists, in stream order, every token that is
  not a flag token together with the most recent flag token before it: the last
  flag token among the first \<open>i\<close> tokens, for the value token at position \<open>i\<close>.
  \<open>invoke\<close> calls the callback registered for the flag of such a pair on its
  value. \<open>route\<close> is the recursive form of \<open>spec_routed\<close> used in the proofs.
\<close>

definition isFlag :: "('s, 'w) bazelArgsParser \<Rightarrow> string \<Rightarrow> bool" where
  "isFlag p t = (args p t \<noteq> None)"

definition invoke :: "('s, 'w) bazelArgsParser \<Rightarrow> 's \<Rightarrow> string \<times> string \<Rightarrow> 's" where
  "invoke p s call =
     (case args p (fst call) of None \<Rightarrow> s | Some a \<Rightarrow> Setter a (snd call) s)"

definition spec_routed :: "(string \<Rightarrow> bool) \<Rightarrow> string list \<Rightarrow> (string \<times> string) list" where
  "spec_routed flag ts =
     map (\<lambda>i. (last (filter flag (take i ts)), ts ! i))
         (filter (\<lambda>i. \<not> flag (ts ! i)) [0..<length ts])"

fun route :: "(string \<Rightarrow> bool) \<Rightarrow> string \<Rightarrow> string list \<Rightarrow> (string \<times> string) list" where
  "route flag f [] = []"
| "route flag f (t # ts) = (if flag t then route flag t ts else (f, t) # route flag f ts)"

text \<open>
  The callbacks of \<^verbatim>\<open>TestBazelParser\<close> append what they receive to a record kept
  by the test; \<open>recordCall\<close> appends the flag and the value to one list of
  calls. The stream provider of the test counts how often it is called;
  \<open>countCalls\<close> adds that counter to a provider.
\<close>

definition recordCall :: "string \<Rightarrow> string \<Rightarrow> (string \<times> string) list \<Rightarrow> (string \<times> string) list" where
  "recordCall flag value calls = calls @ [(flag, value)]"

definition countCalls ::
  "(string \<Rightarrow> 'w \<Rightarrow> (go_error + string list) \<times> 'w)
     \<Rightarrow> string \<Rightarrow> nat \<times> 'w \<Rightarrow> (go_error + string list) \<times> (nat \<times> 'w)"
where
  "countCalls getter paramsPath nw =
     (case getter paramsPath (snd nw) of (r, w') \<Rightarrow> (r, (Suc (fst nw), w')))"


section \<open>The splitter: theorems\<close>

lemma splitLoop_vals_length:
  "delimiter \<noteq> escape \<Longrightarrow>
   length (snd (snd (splitLoop delimiter escape s field esc vals)))
     = length vals + spec_unescapedDelimiters delimiter escape esc s"
  by (induction s arbitrary: field esc vals) auto

lemma splitLoop_same_rune:
  "snd (snd (splitLoop escape escape s field esc vals)) = vals"
  by (induction s arbitrary: field esc vals) auto

lemma splitLoop_append:
  "splitLoop delimiter escape (s @ t) field esc vals =
     (case splitLoop delimiter escape s field esc vals of
        (field', esc', vals') \<Rightarrow> splitLoop delimiter escape t field' esc' vals')"
  by (induction s arbitrary: field esc vals) auto

lemma splitEscapedString_length:
  "length (splitEscapedString s delimiter escape)
     = Suc (length (snd (snd (splitLoop delimiter escape s [] False []))))"
  by (simp add: splitEscapedString_def split: prod.splits)

text \<open>
  Claim C8. The 15-character input f, o, o, backslash, backslash, backslash, =, =,
  backslash, backslash, b, a, backslash, =, r, split at \<open>=\<close> with the backslash as
  escape, gives exactly the two fields f, o, o, backslash, = and backslash, b, a,
  =, r, of five characters each.
\<close>

theorem splitEscapedString_test_vector:
  "splitEscapedString
     [CHR ''f'', CHR ''o'', CHR ''o'', CHR 0x5C, CHR 0x5C, CHR 0x5C, CHR ''='', CHR ''='',
      CHR 0x5C, CHR 0x5C, CHR ''b'', CHR ''a'', CHR 0x5C, CHR ''='', CHR ''r'']
     (CHR ''='') (CHR 0x5C)
   = [[CHR ''f'', CHR ''o'', CHR ''o'', CHR 0x5C, CHR ''=''],
      [CHR 0x5C, CHR ''b'', CHR ''a'', CHR ''='', CHR ''r'']]"
  by (simp add: splitEscapedString_def)

text \<open>
  Claim C3, as amended. For every input and every delimiter and escape,
  \<open>splitEscapedString\<close> returns at least one field. When the delimiter differs
  from the escape, the number of fields is the number of unescaped delimiter
  occurrences plus one. When the two are the same rune, the escape case of the
  switch comes first, nothing splits and the result is exactly one field. The
  empty input yields exactly one empty field.
\<close>

theorem splitEscapedString_field_count:
  "1 \<le> length (splitEscapedString s delimiter escape)
   \<and> (delimiter \<noteq> escape \<longrightarrow>
        length (splitEscapedString s delimiter escape)
          = spec_unescapedDelimiters delimiter escape False s + 1)
   \<and> (delimiter = escape \<longrightarrow> length (splitEscapedString s delimiter escape) = 1)
   \<and> splitEscapedString [] delimiter escape = [[]]"
proof -
  have "1 \<le> length (splitEscapedString s delimiter escape)"
    by (simp add: splitEscapedString_length)
  moreover have "delimiter \<noteq> escape \<longrightarrow>
        length (splitEscapedString s delimiter escape)
          = spec_unescapedDelimiters delimiter escape False s + 1"
    by (simp add: splitEscapedString_length splitLoop_vals_length)
  moreover have "delimiter = escape \<longrightarrow> length (splitEscapedString s delimiter escape) = 1"
    by (simp add: splitEscapedString_length splitLoop_same_rune)
  moreover have "splitEscapedString [] delimiter escape = [[]]"
    by (simp add: splitEscapedString_def)
  ultimately show ?thesis by blast
qed

theorem splitEscapedString_field_count_witness:
  "CHR ''='' \<noteq> CHR 0x5C
   \<and> splitEscapedString ''a=b=c'' (CHR ''='') (CHR 0x5C) = [''a'', ''b'', ''c'']
   \<and> spec_unescapedDelimiters (CHR ''='') (CHR 0x5C) False ''a=b=c'' = 2
   \<and> length (splitEscapedString ''a=b=c'' (CHR ''='') (CHR 0x5C))
       = spec_unescapedDelimiters (CHR ''='') (CHR 0x5C) False ''a=b=c'' + 1
   \<and> length (splitEscapedString ''=='' (CHR ''='') (CHR ''='')) = 1"
  using splitEscapedString_field_count [of "''a=b=c''" "CHR ''=''" "CHR 0x5C"]
    splitEscapedString_field_count [of "''==''" "CHR ''=''" "CHR ''=''"]
  by (simp add: splitEscapedString_def)

text \<open>
  The claim as first stated, for every choice of delimiter and escape, fails when
  both are \<open>=\<close>: the input \<open>=\<close> holds one delimiter, not escaped, and yet
  the result has one field, not two.
\<close>

theorem splitEscapedString_field_count_counterexample:
  "length (splitEscapedString [CHR ''=''] (CHR ''='') (CHR ''=''))
     \<noteq> spec_unescapedDelimiters (CHR ''='') (CHR ''='') False [CHR ''=''] + 1"
  by (simp add: splitEscapedString_def)

text \<open>
  Claim C7. \<open>splitEscapedString\<close> does not fail on a dangling escape: when the
  scan of \<open>s\<close> ends with \<^verbatim>\<open>escaped\<close> false, the input \<open>s\<close> followed by one
  escape character gives exactly the fields of \<open>s\<close>; the dangling escape
  character is dropped.
\<close>

theorem splitEscapedString_dangling_escape:
  "\<not> endsEscaped s delimiter escape \<Longrightarrow>
   splitEscapedString (s @ [escape]) delimiter escape = splitEscapedString s delimiter escape"
  by (simp add: endsEscaped_def splitEscapedString_def splitLoop_append split: prod.splits)

theorem splitEscapedString_dangling_escape_witness:
  "\<not> endsEscaped ''a=b'' (CHR ''='') (CHR 0x5C)
   \<and> splitEscapedString (''a=b'' @ [CHR 0x5C]) (CHR ''='') (CHR 0x5C) = [''a'', ''b'']
   \<and> splitEscapedString ''a=b'' (CHR ''='') (CHR 0x5C) = [''a'', ''b'']"
  using splitEscapedString_dangling_escape [of "''a=b''" "CHR ''=''" "CHR 0x5C"]
  by (simp add: endsEscaped_def splitEscapedString_def)

section \<open>The loop on a scanner and on a list\<close>

lemma Scan_exhausted:
  "wellFormed sc \<Longrightarrow> pendingTokens sc = [] \<Longrightarrow> \<not> fst (Scan sc)"
  by (cases sc) (auto simp: sliceScanner_Scan_def bufioScanner_Scan_def)

lemma Scan_next:
  assumes "wellFormed sc" and "pendingTokens sc = t # ts"
  shows "fst (Scan sc) \<and> Text (snd (Scan sc)) = Returned t
         \<and> pendingTokens (snd (Scan sc)) = ts \<and> wellFormed (snd (Scan sc))"
proof (cases sc)
  case (SliceScanner x)
  define n where "n = nat (lastIndex x + 1)"
  from assms SliceScanner have low: "- 1 \<le> lastIndex x" and dr: "drop n (tokens x) = t # ts"
    by (simp_all add: n_def)
  from dr have lt: "n < length (tokens x)"
    by (metis drop_eq_Nil list.distinct(1) not_le)
  have idx: "lastIndex x + 1 = int n"
    using low by (simp add: n_def)
  from dr lt have hd: "tokens x ! n = t"
    by (metis Cons_nth_drop_Suc list.inject)
  from dr lt have tl: "drop (Suc n) (tokens x) = ts"
    by (metis Cons_nth_drop_Suc list.inject)
  have "nat (lastIndex x + 1 + 1) = Suc n"
    using idx by simp
  with SliceScanner low lt idx hd tl show ?thesis
    by (auto simp: sliceScanner_Scan_def sliceScanner_Text_def go_index_def)
next
  case (BufioScanner x)
  with assms show ?thesis
    by (auto simp: bufioScanner_Scan_def)
qed

lemma parseLoop_dispatch:
  "wellFormed sc \<Longrightarrow> pendingTokens sc = ts \<Longrightarrow>
   parseLoop p sc currentSetter s = dispatch p ts currentSetter s"
proof (induction ts arbitrary: sc currentSetter s)
  case Nil
  then have "\<not> fst (Scan sc)" by (simp add: Scan_exhausted)
  then show ?case by (subst parseLoop.simps) simp
next
  case (Cons t ts)
  from Scan_next [OF Cons.prems]
  have ok: "fst (Scan sc)" and tk: "Text (snd (Scan sc)) = Returned t"
    and rest: "pendingTokens (snd (Scan sc)) = ts" and wf: "wellFormed (snd (Scan sc))"
    by simp_all
  show ?case
    by (subst parseLoop.simps) (simp add: ok tk Cons.IH [OF wf rest] split: option.splits)
qed

lemma parseBazelArguments_slice:
  "parseBazelArguments p (SliceScanner (newSliceScanner ts)) s = dispatch p ts None s"
  unfolding parseBazelArguments_def
  by (rule parseLoop_dispatch) (simp_all add: newSliceScanner_def)

lemma parseBazelArguments_bufio:
  "parseBazelArguments p (BufioScanner (bufio_NewScanner ts)) s = dispatch p ts None s"
  unfolding parseBazelArguments_def
  by (rule parseLoop_dispatch) (simp_all add: bufio_NewScanner_def)

section \<open>Routing\<close>

lemma upt_Suc_shift: "[0..<Suc n] = 0 # map Suc [0..<n]"
  by (simp add: upt_conv_Cons map_Suc_upt del: upt_Suc)

lemma route_indices:
  "flag f \<Longrightarrow>
   route flag f ts =
     map (\<lambda>i. (last (filter flag (f # take i ts)), ts ! i))
         (filter (\<lambda>i. \<not> flag (ts ! i)) [0..<length ts])"
proof (induction ts arbitrary: f)
  case Nil
  then show ?case by simp
next
  case (Cons t ts)
  show ?case
  proof (cases "flag t")
    case True
    with Cons.IH [of t] Cons.prems show ?thesis
      by (simp add: upt_Suc_shift filter_map comp_def del: upt_Suc)
  next
    case False
    with Cons.IH [of f] Cons.prems show ?thesis
      by (simp add: upt_Suc_shift filter_map comp_def del: upt_Suc)
  qed
qed

lemma routed_Cons_flag:
  "flag t \<Longrightarrow> spec_routed flag (t # ts) = route flag t ts"
  by (simp add: spec_routed_def route_indices upt_Suc_shift filter_map comp_def del: upt_Suc)

lemma dispatch_route:
  "args p f = Some a \<Longrightarrow>
   dispatch p ts (Some (Setter a)) s
     = (Returned None, foldl (invoke p) s (route (isFlag p) f ts))"
proof (induction ts arbitrary: f a s)
  case Nil
  then show ?case by simp
next
  case (Cons t ts)
  show ?case
  proof (cases "args p t")
    case None
    with Cons.IH [OF Cons.prems] Cons.prems show ?thesis
      by (simp add: isFlag_def invoke_def)
  next
    case (Some b)
    with Cons.IH [OF Some] show ?thesis
      by (simp add: isFlag_def)
  qed
qed

lemma dispatch_routed:
  "ts = [] \<or> isFlag p (hd ts) \<Longrightarrow>
   dispatch p ts None s = (Returned None, foldl (invoke p) s (spec_routed (isFlag p) ts))"
proof (cases ts)
  case Nil
  then show ?thesis by (simp add: spec_routed_def)
next
  case (Cons t ts')
  assume "ts = [] \<or> isFlag p (hd ts)"
  with Cons obtain a where a: "args p t = Some a"
    by (auto simp: isFlag_def)
  then have "isFlag p t" by (simp add: isFlag_def)
  with Cons a show ?thesis
    by (simp add: dispatch_route routed_Cons_flag)
qed

lemma routed_values:
  "(f, v) \<in> set (spec_routed flag ts) \<Longrightarrow> \<not> flag v"
  by (auto simp: spec_routed_def)

lemma routed_flags:
  assumes "(f, v) \<in> set (spec_routed flag ts)" and "flag (hd ts)"
  shows "flag f"
proof -
  from assms(1) obtain i where i: "i < length ts" "\<not> flag (ts ! i)"
      and f: "f = last (filter flag (take i ts))"
    by (auto simp: spec_routed_def)
  from i assms(2) have "i \<noteq> 0" "ts \<noteq> []"
    by (auto simp: hd_conv_nth intro: ccontr)
  then have "hd ts \<in> set (take i ts)"
    by (cases ts; cases i) auto
  with assms(2) have "filter flag (take i ts) \<noteq> []"
    by (auto simp: filter_empty_conv)
  then have "last (filter flag (take i ts)) \<in> set (filter flag (take i ts))"
    by (rule last_in_set)
  with f show ?thesis by simp
qed

section \<open>The parser: theorems\<close>

lemma Parse_direct:
  "c \<noteq> CHR ''@'' \<Longrightarrow>
   Parse p ((c # cs) # rest) s w =
     (case dispatch p ((c # cs) # rest) None s of (r, s') \<Rightarrow> (r, s', w))"
  by (simp add: Parse_def go_index_def parseBazelArguments_slice)

lemma Parse_indirect:
  "Parse p [CHR ''@'' # name] s w =
     (case paramsReaderGetter p name w of
        (Inl err, w') \<Rightarrow> (Returned (Some err), s, w')
      | (Inr paramsReader, w') \<Rightarrow>
          (case dispatch p paramsReader None s of (r, s') \<Rightarrow> (r, s', w')))"
  by (simp add: Parse_def go_index_def parseBazelArguments_bufio split: prod.splits sum.splits)

lemma args_WithArg:
  "args (WithArg flag setter p) t = (if t = flag then Some \<lparr>Setter = setter\<rparr> else args p t)"
  by (simp add: WithArg_def)

lemma args_WithParamsReaderGetter: "args (WithParamsReaderGetter g p) = args p"
  by (simp add: WithParamsReaderGetter_def)

lemma args_NewBazelArgsParser: "args NewBazelArgsParser t = None"
  by (simp add: NewBazelArgsParser_def)

text \<open>
  Claim C4. With exactly the flags \<open>--a\<close> and \<open>--b\<close> registered,
  \<^verbatim>\<open>Parse\<close> of \<open>--a x y --b z\<close> succeeds and the calls are, in this order,
  \<open>--a\<close> with \<open>x\<close>, \<open>--a\<close> with \<open>y\<close> and \<open>--b\<close> with \<open>z\<close>. In
  general, for every parser and every token stream that is empty or starts with a
  flag token, from the argument list or from a parameter file, the loop succeeds
  and has invoked the callbacks exactly as \<open>spec_routed\<close> lists them: every token
  that is not a flag, in stream order, goes to the callback of the most recent
  flag token before it. No value passed is a flag token, and every callback
  invoked is that of a flag token.
\<close>

theorem Parse_flag_grouping:
  "Parse (WithArg ''--b'' (recordCall ''--b'')
            (WithArg ''--a'' (recordCall ''--a'')
               (WithParamsReaderGetter getter NewBazelArgsParser)))
         [''--a'', ''x'', ''y'', ''--b'', ''z''] [] w
     = (Returned None, [(''--a'', ''x''), (''--a'', ''y''), (''--b'', ''z'')], w)
   \<and> (ts = [] \<or> isFlag p (hd ts) \<longrightarrow>
        parseBazelArguments p (SliceScanner (newSliceScanner ts)) s
          = (Returned None, foldl (invoke p) s (spec_routed (isFlag p) ts))
        \<and> parseBazelArguments p (BufioScanner (bufio_NewScanner ts)) s
          = (Returned None, foldl (invoke p) s (spec_routed (isFlag p) ts)))
   \<and> (\<forall>(f, v) \<in> set (spec_routed (isFlag p) ts).
         \<not> isFlag p v \<and> (isFlag p (hd ts) \<longrightarrow> isFlag p f))"
proof (intro conjI)
  show "Parse (WithArg ''--b'' (recordCall ''--b'')
            (WithArg ''--a'' (recordCall ''--a'')
               (WithParamsReaderGetter getter NewBazelArgsParser)))
         [''--a'', ''x'', ''y'', ''--b'', ''z''] [] w
     = (Returned None, [(''--a'', ''x''), (''--a'', ''y''), (''--b'', ''z'')], w)"
    by (simp add: Parse_direct args_WithArg args_WithParamsReaderGetter
          args_NewBazelArgsParser recordCall_def)
  show "ts = [] \<or> isFlag p (hd ts) \<longrightarrow>
        parseBazelArguments p (SliceScanner (newSliceScanner ts)) s
          = (Returned None, foldl (invoke p) s (spec_routed (isFlag p) ts))
        \<and> parseBazelArguments p (BufioScanner (bufio_NewScanner ts)) s
          = (Returned None, foldl (invoke p) s (spec_routed (isFlag p) ts))"
    by (simp add: parseBazelArguments_slice parseBazelArguments_bufio dispatch_routed)
  show "\<forall>(f, v) \<in> set (spec_routed (isFlag p) ts).
         \<not> isFlag p v \<and> (isFlag p (hd ts) \<longrightarrow> isFlag p f)"
    using routed_values routed_flags by fast
qed

theorem Parse_flag_grouping_witness:
  "isFlag (WithArg ''--b'' (recordCall ''--b'')
             (WithArg ''--a'' (recordCall ''--a'') NewBazelArgsParser)) (hd [''--a'', ''x'', ''y'', ''--b'', ''z''])
   \<and> parseBazelArguments
        (WithArg ''--b'' (recordCall ''--b'')
           (WithArg ''--a'' (recordCall ''--a'') NewBazelArgsParser))
        (SliceScanner (newSliceScanner [''--a'', ''x'', ''y'', ''--b'', ''z''])) []
      = (Returned None, [(''--a'', ''x''), (''--a'', ''y''), (''--b'', ''z'')])
   \<and> spec_routed (isFlag (WithArg ''--b'' (recordCall ''--b'')
             (WithArg ''--a'' (recordCall ''--a'') (NewBazelArgsParser :: ((string \<times> string) list, world) bazelArgsParser))))
         [''--a'', ''x'', ''y'', ''--b'', ''z'']
      = [(''--a'', ''x''), (''--a'', ''y''), (''--b'', ''z'')]"
  using Parse_flag_grouping
    [of os_Open "\<lparr>files = Map.empty, openFiles = []\<rparr>" "[''--a'', ''x'', ''y'', ''--b'', ''z'']"
        "WithArg ''--b'' (recordCall ''--b'')
           (WithArg ''--a'' (recordCall ''--a'') NewBazelArgsParser)" "[]"]
  by (simp add: isFlag_def invoke_def spec_routed_def args_WithArg args_NewBazelArgsParser
        recordCall_def upt_conv_Cons)

text \<open>
  Claim C5. When \<open>x\<close> is not a registered flag, \<^verbatim>\<open>Parse\<close> of \<open>x --a y\<close>
  fails with the error \<open>unexpected flag x\<close> and the state of the host is
  untouched: no callback ran. In general a first token that is not a flag stops
  the parse with this error, which carries the token, before any callback runs:
  in \<^verbatim>\<open>Parse\<close> on arguments, and in the loop on the argument list and on the
  lines of a parameter file.
\<close>

theorem Parse_leading_value:
  "(args p ''x'' = None \<longrightarrow>
      Parse p [''x'', ''--a'', ''y''] s w
        = (Returned (Some (errorString ''unexpected flag x'')), s, w))
   \<and> (args p t = None \<and> t \<noteq> [] \<and> hd t \<noteq> CHR ''@'' \<longrightarrow>
        Parse p (t # ts) s w
          = (Returned (Some (errorString (''unexpected flag '' @ t))), s, w))
   \<and> (args p t = None \<longrightarrow>
        parseBazelArguments p (SliceScanner (newSliceScanner (t # ts))) s
          = (Returned (Some (errorString (''unexpected flag '' @ t))), s)
        \<and> parseBazelArguments p (BufioScanner (bufio_NewScanner (t # ts))) s
          = (Returned (Some (errorString (''unexpected flag '' @ t))), s))"
proof (intro conjI impI)
  assume "args p ''x'' = None"
  then show "Parse p [''x'', ''--a'', ''y''] s w
        = (Returned (Some (errorString ''unexpected flag x'')), s, w)"
    by (simp add: Parse_direct)
next
  assume a: "args p t = None \<and> t \<noteq> [] \<and> hd t \<noteq> CHR ''@''"
  then obtain c cs where "t = c # cs" "c \<noteq> CHR ''@''"
    by (cases t) auto
  with a show "Parse p (t # ts) s w
          = (Returned (Some (errorString (''unexpected flag '' @ t))), s, w)"
    by (simp add: Parse_direct)
next
  assume "args p t = None"
  then show "parseBazelArguments p (SliceScanner (newSliceScanner (t # ts))) s
          = (Returned (Some (errorString (''unexpected flag '' @ t))), s)"
    by (simp add: parseBazelArguments_slice)
next
  assume "args p t = None"
  then show "parseBazelArguments p (BufioScanner (bufio_NewScanner (t # ts))) s
          = (Returned (Some (errorString (''unexpected flag '' @ t))), s)"
    by (simp add: parseBazelArguments_bufio)
qed

theorem Parse_leading_value_witness:
  "args (WithArg ''--a'' (recordCall ''--a'') NewBazelArgsParser) ''x'' = None
   \<and> ''x'' \<noteq> [] \<and> hd ''x'' \<noteq> CHR ''@''
   \<and> Parse (WithArg ''--a'' (recordCall ''--a'') NewBazelArgsParser) [''x'', ''--a'', ''y''] []
        \<lparr>files = Map.empty, openFiles = []\<rparr>
      = (Returned (Some (errorString ''unexpected flag x'')), [],
         \<lparr>files = Map.empty, openFiles = []\<rparr>)"
  using Parse_leading_value
    [of "WithArg ''--a'' (recordCall ''--a'') NewBazelArgsParser" "[]"
        "\<lparr>files = Map.empty, openFiles = []\<rparr>" "''x''" "[''--a'', ''y'']"]
  by (simp add: args_WithArg args_NewBazelArgsParser)

text \<open>
  Claim C6. When the first argument starts with \<open>@\<close> and there is another
  argument, \<^verbatim>\<open>Parse\<close> fails with the usage error and the environment of the
  stream provider is unchanged, whatever the provider is: it has not been called.
  In particular the counter of a counting provider stays at zero for
  \<open>@file.txt extra\<close>.
\<close>

theorem Parse_indirection_exclusive:
  "Parse p ((CHR ''@'' # name) # extra # others) s w
     = (Returned (Some (errorString ''expected single argument with param file'')), s, w)
   \<and> Parse (WithParamsReaderGetter (countCalls getter) p) [''@file.txt'', ''extra''] s (0, w)
     = (Returned (Some (errorString ''expected single argument with param file'')), s, (0, w))"
  by (simp add: Parse_def go_index_def)

lemma dispatch_no_panic: "fst (dispatch p ts currentSetter s) \<noteq> Panicked e"
  by (induction ts arbitrary: currentSetter s) (auto split: option.splits)

lemma Parse_direct_no_panic:
  "c \<noteq> CHR ''@'' \<Longrightarrow> fst (Parse p ((c # cs) # rest) s w) \<noteq> Panicked e"
proof -
  assume "c \<noteq> CHR ''@''"
  then have "fst (Parse p ((c # cs) # rest) s w) = fst (dispatch p ((c # cs) # rest) None s)"
    by (simp add: Parse_direct split: prod.splits)
  then show ?thesis
    by (simp add: dispatch_no_panic del: dispatch.simps)
qed

lemma Parse_indirect_no_panic:
  "fst (Parse p [CHR ''@'' # name] s w) \<noteq> Panicked e"
proof (cases "paramsReaderGetter p name w")
  case (Pair r w')
  show ?thesis
  proof (cases r)
    case (Inl err)
    with Pair show ?thesis by (simp add: Parse_indirect)
  next
    case (Inr paramsReader)
    with Pair have "fst (Parse p [CHR ''@'' # name] s w) = fst (dispatch p paramsReader None s)"
      by (simp add: Parse_indirect split: prod.splits)
    then show ?thesis
      by (simp add: dispatch_no_panic)
  qed
qed

text \<open>
  Claim C9. \<^verbatim>\<open>Parse\<close> reads byte 0 of the first argument with no guard. For a
  non-empty first argument the access is in range; for an empty first argument it
  is out of range and \<^verbatim>\<open>Parse\<close> panics. With callbacks and a provider that
  return, \<^verbatim>\<open>Parse\<close> panics exactly when the first argument is the empty
  string.
\<close>

theorem Parse_first_byte:
  "(firstArgument \<noteq> [] \<longrightarrow> go_index firstArgument 0 = Returned (hd firstArgument))
   \<and> Parse p ([] # rest) s w = (Panicked (IndexOutOfRange 0 0), s, w)
   \<and> ((\<exists>e. fst (Parse p arguments s w) = Panicked e)
        \<longleftrightarrow> arguments \<noteq> [] \<and> hd arguments = [])"
proof (intro conjI)
  show "firstArgument \<noteq> [] \<longrightarrow> go_index firstArgument 0 = Returned (hd firstArgument)"
    by (cases firstArgument) (simp_all add: go_index_def)
  show "Parse p ([] # rest) s w = (Panicked (IndexOutOfRange 0 0), s, w)"
    by (simp add: Parse_def go_index_def)
  show "(\<exists>e. fst (Parse p arguments s w) = Panicked e)
        \<longleftrightarrow> arguments \<noteq> [] \<and> hd arguments = []"
  proof (cases arguments)
    case Nil
    then show ?thesis by (simp add: Parse_def)
  next
    case (Cons first others)
    show ?thesis
    proof (cases first)
      case Nil
      have "Parse p ([] # others) s w = (Panicked (IndexOutOfRange 0 0), s, w)"
        by (simp add: Parse_def go_index_def)
      with Cons Nil show ?thesis by simp
    next
      case inner: (Cons c cs)
      show ?thesis
      proof (cases "c = CHR ''@''")
        case False
        with Cons inner show ?thesis
          by (simp add: Parse_direct_no_panic)
      next
        case True
        show ?thesis
        proof (cases others)
          case Nil
          with Cons inner True show ?thesis
            by (simp add: Parse_indirect_no_panic)
        next
          case several: (Cons extra further)
          with Cons inner True show ?thesis
            by (simp add: Parse_def go_index_def)
        qed
      qed
    qed
  qed
qed

theorem Parse_first_byte_witness:
  "''--id'' \<noteq> [] \<and> go_index ''--id'' 0 = Returned (CHR ''-'')
   \<and> [''''] \<noteq> [] \<and> hd [''''] = []
   \<and> (\<exists>e. fst (Parse (NewBazelArgsParser :: (unit, world) bazelArgsParser) [''''] ()
                  \<lparr>files = Map.empty, openFiles = []\<rparr>) = Panicked e)"
  using Parse_first_byte
    [of "''--id''" "NewBazelArgsParser :: (unit, world) bazelArgsParser" "[]" "()"
        "\<lparr>files = Map.empty, openFiles = []\<rparr>" "['''']"]
  by simp

text \<open>
  Claim C2, as amended. In the indirection path \<^verbatim>\<open>Parse\<close> does not release the
  stream: the provider returns a reader, which has no release operation, and the
  environment when \<^verbatim>\<open>Parse\<close> returns is the environment the provider left,
  whatever the dispatch loop returns. With the default provider a file that was
  opened is still open.
\<close>

theorem Parse_stream_not_released:
  "snd (snd (Parse p [CHR ''@'' # name] s w)) = snd (paramsReaderGetter p name w)
   \<and> (paramsReaderGetter p = os_Open \<and> files w name = Some contents \<longrightarrow>
        Parse p [CHR ''@'' # name] s w
          = (case parseBazelArguments p (BufioScanner (bufio_NewScanner contents)) s of
               (r, s') \<Rightarrow> (r, s', w\<lparr>openFiles := openFiles w @ [name]\<rparr>)))"
  by (simp add: Parse_def go_index_def os_Open_def split: prod.splits sum.splits)

theorem Parse_stream_not_released_witness:
  "paramsReaderGetter (WithArg ''--a'' (recordCall ''--a'') NewBazelArgsParser) = os_Open
   \<and> files \<lparr>files = [''params.txt'' \<mapsto> [''--a'', ''x'']], openFiles = []\<rparr> ''params.txt''
       = Some [''--a'', ''x'']
   \<and> openFiles (snd (snd (Parse (WithArg ''--a'' (recordCall ''--a'') NewBazelArgsParser)
        [''@params.txt''] []
        \<lparr>files = [''params.txt'' \<mapsto> [''--a'', ''x'']], openFiles = []\<rparr>)))
      = [''params.txt'']"
  using Parse_stream_not_released
    [of "WithArg ''--a'' (recordCall ''--a'') NewBazelArgsParser" "''params.txt''" "[]"
        "\<lparr>files = [''params.txt'' \<mapsto> [''--a'', ''x'']], openFiles = []\<rparr>" "[''--a'', ''x'']"]
  by (simp add: NewBazelArgsParser_def WithArg_def os_Open_def split: prod.splits)

text \<open>
  The claim as first stated fails: after a successful parse of a parameter file,
  and after one that the dispatch loop ends with an error, the file is among the
  open files.
\<close>

theorem Parse_stream_release_counterexample:
  "Parse (WithArg ''--a'' (recordCall ''--a'') NewBazelArgsParser) [''@params.txt''] []
     \<lparr>files = [''params.txt'' \<mapsto> [''--a'', ''x'']], openFiles = []\<rparr>
   = (Returned None, [(''--a'', ''x'')],
      \<lparr>files = [''params.txt'' \<mapsto> [''--a'', ''x'']], openFiles = [''params.txt'']\<rparr>)
   \<and> Parse (WithArg ''--a'' (recordCall ''--a'') NewBazelArgsParser) [''@params.txt''] []
     \<lparr>files = [''params.txt'' \<mapsto> [''x'', ''--a'']], openFiles = []\<rparr>
   = (Returned (Some (errorString ''unexpected flag x'')), [],
      \<lparr>files = [''params.txt'' \<mapsto> [''x'', ''--a'']], openFiles = [''params.txt'']\<rparr>)"
  by (simp add: Parse_indirect NewBazelArgsParser_def WithArg_def os_Open_def recordCall_def)

section \<open>The archive: theorems\<close>



lemma args_archiveParser:
  "args archiveParser t =
     (if t = ''--output-file'' then Some \<lparr>Setter = set_output_file\<rparr>
      else if t = ''--direct-pkg'' then Some \<lparr>Setter = set_direct_pkg\<rparr>
      else if t = ''--data-srcs'' then Some \<lparr>Setter = set_data_srcs\<rparr>
      else if t = ''--export-file'' then Some \<lparr>Setter = set_export_file\<rparr>
      else if t = ''--pkg-path'' then Some \<lparr>Setter = set_pkg_path\<rparr>
      else if t = ''--id'' then Some \<lparr>Setter = set_id\<rparr>
      else None)"
  unfolding archiveParser_def
  by (simp only: args_WithArg args_NewBazelArgsParser)





text \<open>
  Claim C1. \<^verbatim>\<open>parseKeyValueArg\<close> returns the malformed-pair error for
  \<open>novalue\<close>, which has no \<open>=\<close>. The claim says the parse then fails; the
  code returns the output path and no error for the arguments
  \<open>--output-file out.json --direct-pkg novalue\<close>, with the archive unchanged.
\<close>

theorem parseArchiveAndOutputPath_malformed_direct_pkg:
  "parseKeyValueArg ''novalue'' m
     = (Some (errorString ''could not parse key value pair: novalue''), m)
   \<and> parseArchiveAndOutputPath [''--output-file'', ''out.json'', ''--direct-pkg'', ''novalue''] a w
     = (Returned (''out.json'', None), a, w)"
  by (simp add: parseKeyValueArg_def splitEscapedString_def parseArchiveAndOutputPath_def
        Parse_direct args_archiveParser set_direct_pkg_def set_output_file_def)

end
